theory Spec2Isabelle
  imports Complex_Main "HOL-Library.Multiset"
begin

section \<open>Data model\<close>

text \<open>
  The program (\<^verbatim>\<open>zones.py\<close>) works on pandas data frames. A frame is modelled as the
  list of its rows in frame order, a row as a record with one field per column. The
  frames the program builds carry the index \<open>0, 1, ..., n - 1\<close> (every stage ends with
  \<^verbatim>\<open>ignore_index=True\<close> or \<^verbatim>\<open>reset_index(drop=True)\<close>), so the label lookup
  \<^verbatim>\<open>data["col"][i]\<close> is the positional lookup \<open>col (data ! i)\<close>.

  Prices and volumes are floats in the source; here they are real numbers, so rounding
  and the non-finite values are outside the model. Timestamps are whole milliseconds.
  The columns \<^verbatim>\<open>open\<close>, \<^verbatim>\<open>high\<close>, \<^verbatim>\<open>low\<close>, \<^verbatim>\<open>close\<close> of a candle are the fields
  \<open>c_open\<close>, \<open>c_high\<close>, \<open>c_low\<close>, \<open>c_close\<close> (\<open>open\<close> is a constant of the library),
  and the columns of a zone carry the prefix \<open>z_\<close>, since a zone frame reuses the
  column names \<^verbatim>\<open>close_timestamp\<close>, \<^verbatim>\<open>high\<close>, \<^verbatim>\<open>low\<close>.
\<close>

datatype error = IndexError | ZeroDivisionError | UnboundLocalError

record candle =
  open_timestamp :: int
  c_open :: real
  c_high :: real
  c_low :: real
  c_close :: real
  volume :: real
  close_timestamp :: int
  trades_number :: real

text \<open>The frame returned by \<^verbatim>\<open>get_candles\<close>: the eight columns above and four more.\<close>

record kline = candle +
  qvolume :: real
  taker_buy_base_volume :: real
  taker_buy_quote_volume :: real
  ignore :: real

text \<open>
  \<^verbatim>\<open>generate_vol_per_trade\<close> adds \<^verbatim>\<open>volume_per_trade\<close>; the float division by a zero
  \<^verbatim>\<open>trades_number\<close> gives a non-finite value, which is \<open>None\<close> here.
\<close>

record vpt_candle = candle +
  volume_per_trade :: "real option"

datatype candle_type = Momentum | Base

record classified_candle = vpt_candle +
  candle_type :: candle_type
  momentum :: real

record zone =
  z_close_timestamp :: int
  z_high :: real
  z_low :: real

section \<open>Timeframe tokens\<close>

text \<open>
  A string is the list of the code points of the Python string, each of them below 256.
  Code points from 256 on have no character here, so tokens that hold one (among them
  the further decimal digits and spaces that \<^verbatim>\<open>int\<close> reads) are outside the model.

  \<^verbatim>\<open>convert_timeframe\<close> calls Python's \<^verbatim>\<open>int\<close> on the token without its last
  character. \<^verbatim>\<open>int\<close> strips white space at both ends (the code points 9 to 13, 32,
  133 and 160), takes one optional sign, and then wants decimal digits, where single
  underscores may stand between two digits. A string with more than 640 digits is
  rejected when the interpreter has a limit on the digits of a conversion and the
  string has more digits than the limit. The limit, \<^verbatim>\<open>sys.get_int_max_str_digits()\<close>,
  is the parameter \<open>int_max_str_digits\<close>: 4300 unless the interpreter is configured
  otherwise, and 0 where there is no limit. Every rejection raises \<^verbatim>\<open>ValueError\<close>,
  which is \<open>None\<close> here.
\<close>

definition is_space :: "char \<Rightarrow> bool" where
  "is_space c \<longleftrightarrow> (of_char c :: nat) \<in> {9, 10, 11, 12, 13, 32, 133, 160}"

definition is_digit :: "char \<Rightarrow> bool" where
  "is_digit c \<longleftrightarrow> 48 \<le> (of_char c :: nat) \<and> (of_char c :: nat) \<le> 57"

definition digit_val :: "char \<Rightarrow> int" where
  "digit_val c = int (of_char c) - 48"

text \<open>The digits after the first one; \<open>n\<close> is the value read so far.\<close>

fun digits_acc :: "int \<Rightarrow> string \<Rightarrow> int option" where
  "digits_acc n [] = Some n"
| "digits_acc n [c] = (if is_digit c then Some (10 * n + digit_val c) else None)"
| "digits_acc n (c # d # rest) =
     (if is_digit c then digits_acc (10 * n + digit_val c) (d # rest)
      else if c = CHR ''_'' \<and> is_digit d then digits_acc (10 * n + digit_val d) rest
      else None)"

definition strip :: "string \<Rightarrow> string" where
  "strip s = rev (dropWhile is_space (rev (dropWhile is_space s)))"

definition too_many_digits :: "nat \<Rightarrow> nat \<Rightarrow> bool" where
  "too_many_digits int_max_str_digits digits \<longleftrightarrow>
     digits > 640 \<and> int_max_str_digits > 0 \<and> digits > int_max_str_digits"

definition py_int :: "nat \<Rightarrow> string \<Rightarrow> int option" where
  "py_int int_max_str_digits s =
     (let t = strip s;
          (sign, body) =
            (case t of
               [] \<Rightarrow> (1, t)
             | c # cs \<Rightarrow>
                 if c = CHR ''-'' then (- 1, cs)
                 else if c = CHR ''+'' then (1, cs)
                 else (1, t))
      in case body of
           [] \<Rightarrow> None
         | d # rest \<Rightarrow>
             if is_digit d
             then (case digits_acc (digit_val d) rest of
                     None \<Rightarrow> None
                   | Some v \<Rightarrow>
                       if too_many_digits int_max_str_digits (length (filter is_digit body))
                       then None
                       else Some (sign * v))
             else None)"

text \<open>
  \<^verbatim>\<open>timeframe_string[-1]\<close> stands before the \<^verbatim>\<open>try\<close>, so the empty token raises
  \<^verbatim>\<open>IndexError\<close>. Inside the \<^verbatim>\<open>try\<close> only \<^verbatim>\<open>int\<close> can raise, and the bare
  \<^verbatim>\<open>except\<close> turns that into the result 0.
\<close>

definition convert_timeframe :: "nat \<Rightarrow> string \<Rightarrow> error + int" where
  "convert_timeframe int_max_str_digits timeframe_string =
     (if timeframe_string = [] then Inl IndexError
      else
        let unit = last timeframe_string in
        case py_int int_max_str_digits (butlast timeframe_string) of
          None \<Rightarrow> Inr 0
        | Some number \<Rightarrow>
            if unit = CHR ''m'' then Inr (number * 60000)
            else if unit = CHR ''h'' then Inr (number * 60000 * 60)
            else if unit = CHR ''d'' then Inr (number * 60000 * 60 * 24)
            else if unit = CHR ''w'' then Inr (number * 60000 * 60 * 24 * 7)
            else Inr 0)"

text \<open>
  The first statements of \<^verbatim>\<open>get_candles\<close>, up to \<^verbatim>\<open>last_timestamp_in_timeframe\<close>.
  The clock value \<^verbatim>\<open>int(datetime.now().timestamp()*1000)\<close> is the parameter
  \<open>current_timestamp\<close>. Python's \<^verbatim>\<open>%\<close> on integers raises on a zero divisor and
  otherwise takes the sign of the divisor, as \<open>mod\<close> does.
\<close>

definition last_timestamp_in_timeframe :: "nat \<Rightarrow> int \<Rightarrow> string \<Rightarrow> error + int" where
  "last_timestamp_in_timeframe int_max_str_digits current_timestamp timeframe_str =
     (case convert_timeframe int_max_str_digits timeframe_str of
        Inl e \<Rightarrow> Inl e
      | Inr timeframe_ms \<Rightarrow>
          if timeframe_ms = 0 then Inl ZeroDivisionError
          else Inr (current_timestamp - current_timestamp mod timeframe_ms))"

text \<open>
  The token grammar of the specification, for comparison: one or more digits and then
  one of the four units. \<open>decimal\<close> is the number a digit string denotes.
\<close>

definition decimal :: "string \<Rightarrow> int" where
  "decimal ds = foldl (\<lambda>n c. 10 * n + digit_val c) 0 ds"

definition unit_ms :: "char \<Rightarrow> int" where
  "unit_ms u =
     (if u = CHR ''m'' then 60000
      else if u = CHR ''h'' then 60000 * 60
      else if u = CHR ''d'' then 60000 * 60 * 24
      else 60000 * 60 * 24 * 7)"

definition is_unit :: "char \<Rightarrow> bool" where
  "is_unit u \<longleftrightarrow> u = CHR ''m'' \<or> u = CHR ''h'' \<or> u = CHR ''d'' \<or> u = CHR ''w''"

definition digit_string :: "string \<Rightarrow> bool" where
  "digit_string ds \<longleftrightarrow> ds \<noteq> [] \<and> list_all is_digit ds"

section \<open>Normalizer\<close>

text \<open>The row \<^verbatim>\<open>new_row\<close> built for the rows \<open>index - 1\<close> and \<open>index\<close>.\<close>

definition new_row :: "candle \<Rightarrow> candle \<Rightarrow> candle" where
  "new_row prev cur =
     (let open_timestamp' = close_timestamp prev + 1;
          open_price = c_close prev;
          close_price = c_open cur;
          high_price = max open_price close_price;
          low_price = min open_price close_price;
          volume' = (0 + volume prev + volume cur) / 2;
          close_timestamp' = open_timestamp cur - 1;
          trades_number' = (0 + trades_number prev + trades_number cur) / 2
      in \<lparr>open_timestamp = open_timestamp', c_open = open_price, c_high = high_price,
          c_low = low_price, c_close = close_price, volume = volume',
          close_timestamp = close_timestamp', trades_number = trades_number'\<rparr>)"

text \<open>
  The loop \<^verbatim>\<open>for index in range(1, len(data))\<close>. The range is fixed before the first
  pass. \<^verbatim>\<open>pd.concat\<close> puts the new row at the end of \<open>data\<close>; the rows the loop reads
  are at the positions below the first length of the frame and never move. The new
  rows all carry the label 0, which the loop reads only in its first pass, before any
  row is added, so the label lookup stays the positional one.
\<close>

fun missing_candles_loop :: "nat list \<Rightarrow> candle list \<Rightarrow> candle list" where
  "missing_candles_loop [] data = data"
| "missing_candles_loop (index # rest) data =
     (if close_timestamp (data ! (index - 1)) + 1 \<noteq> open_timestamp (data ! index)
      then missing_candles_loop rest
             (data @ [new_row (data ! (index - 1)) (data ! index)])
      else missing_candles_loop rest data)"

text \<open>
  The source has no \<^verbatim>\<open>raise\<close> and no check of its input, and the pandas calls succeed
  on every frame with these columns; every path returns a frame. \<^verbatim>\<open>sort_values\<close> is
  the stable insertion sort \<open>sort_key\<close> here. The order pandas gives to rows with equal
  keys is not fixed by the source, so no statement below depends on it.
\<close>

definition generate_missing_candles :: "kline list \<Rightarrow> error + candle list" where
  "generate_missing_candles klines =
     (let data = map candle.truncate klines;
          data = missing_candles_loop [1 ..< length data] data
      in Inr (sort_key open_timestamp data))"

definition generate_vol_per_trade :: "candle list \<Rightarrow> vpt_candle list" where
  "generate_vol_per_trade data =
     map (\<lambda>row. candle.extend row
            (vpt_candle.fields
               (if trades_number row = 0 then None
                else Some (volume row / trades_number row)))) data"

section \<open>Momentum classifier\<close>

text \<open>The two columns added before the loop.\<close>

definition add_columns :: "vpt_candle \<Rightarrow> classified_candle" where
  "add_columns row =
     vpt_candle.extend row (classified_candle.fields Momentum \<bar>c_close row - c_open row\<bar>)"

text \<open>
  The loop \<^verbatim>\<open>for index in range(nocffz, len(data) - nocffz)\<close>. The list comprehension
  reads \<^verbatim>\<open>momentum\<close> at the indices \<open>index - nocffz, ..., index + nocffz\<close> without
  \<open>index\<close>, all inside the frame. With \<open>nocffz = 0\<close> the division is the integer
  division \<^verbatim>\<open>0 / 0\<close>, which raises.
\<close>

fun find_base_candles_loop ::
  "nat \<Rightarrow> nat list \<Rightarrow> classified_candle list \<Rightarrow> error + classified_candle list" where
  "find_base_candles_loop nocffz [] data = Inr data"
| "find_base_candles_loop nocffz (index # rest) data =
     (if 2 * nocffz = 0 then Inl ZeroDivisionError
      else if sum_list (map (\<lambda>i. momentum (data ! i))
                 (filter (\<lambda>i. i \<noteq> index) [index - nocffz ..< index + nocffz + 1]))
               / real (2 * nocffz)
              > 6 * momentum (data ! index)
      then find_base_candles_loop nocffz rest
             (data[index := (data ! index)\<lparr>candle_type := Base\<rparr>])
      else find_base_candles_loop nocffz rest data)"

text \<open>
  \<open>nocffz\<close> is a natural number: a negative window is not modelled. The upper end
  \<open>length data - nocffz\<close> of the range is 0 where Python's is negative; the range is
  empty in both.
\<close>

definition find_base_candles :: "vpt_candle list \<Rightarrow> nat \<Rightarrow> error + classified_candle list" where
  "find_base_candles data nocffz =
     find_base_candles_loop nocffz [nocffz ..< length data - nocffz] (map add_columns data)"

section \<open>Zone detector\<close>

text \<open>
  \<^verbatim>\<open>find_zones\<close>, the test of the inner loop: the high or the low of the later candle
  is strictly between the low and the high of the base candle.
\<close>

definition is_touch :: "classified_candle \<Rightarrow> classified_candle \<Rightarrow> bool" where
  "is_touch base_candle candle \<longleftrightarrow>
     (c_high candle > c_low base_candle \<and> c_high candle < c_high base_candle) \<or>
     (c_low candle > c_low base_candle \<and> c_low candle < c_high base_candle)"

text \<open>
  The inner loop with its \<^verbatim>\<open>break\<close>: the rows still to scan, the running
  \<^verbatim>\<open>number_of_touches\<close>, and the value the counter has when the loop is left.
\<close>

fun count_touches ::
  "classified_candle \<Rightarrow> int \<Rightarrow> classified_candle list \<Rightarrow> int \<Rightarrow> int" where
  "count_touches base_candle max_num_touches [] number_of_touches = number_of_touches"
| "count_touches base_candle max_num_touches (candle # rest) number_of_touches =
     (if is_touch base_candle candle
      then (if number_of_touches + 1 > max_num_touches
            then number_of_touches + 1
            else count_touches base_candle max_num_touches rest (number_of_touches + 1))
      else count_touches base_candle max_num_touches rest number_of_touches)"

definition later_candles ::
  "classified_candle list \<Rightarrow> classified_candle \<Rightarrow> classified_candle list" where
  "later_candles data base_candle =
     filter (\<lambda>candle. open_timestamp candle > close_timestamp base_candle) data"

definition zone_of :: "classified_candle \<Rightarrow> zone" where
  "zone_of base_candle =
     \<lparr>z_close_timestamp = close_timestamp base_candle,
      z_high = c_high base_candle, z_low = c_low base_candle\<rparr>"

text \<open>The outer loop over the base candles, appending the zones that pass.\<close>

fun zones_loop ::
  "classified_candle list \<Rightarrow> int \<Rightarrow> classified_candle list \<Rightarrow> zone list" where
  "zones_loop data max_num_touches [] = []"
| "zones_loop data max_num_touches (base_candle # rest) =
     (if count_touches base_candle max_num_touches (later_candles data base_candle) 0
           \<le> max_num_touches
      then zone_of base_candle # zones_loop data max_num_touches rest
      else zones_loop data max_num_touches rest)"

definition find_zones :: "classified_candle list \<Rightarrow> int \<Rightarrow> zone list" where
  "find_zones data max_num_touches =
     sort_key z_low
       (zones_loop data max_num_touches (filter (\<lambda>c. candle_type c = Base) data))"

section \<open>Zone merger\<close>

text \<open>
  The loop \<^verbatim>\<open>for index in range(1, len(zones))\<close> of \<^verbatim>\<open>append_zones\<close>, with the flag
  that skips the pass after a merge.
\<close>

fun append_zones_loop :: "zone list \<Rightarrow> nat list \<Rightarrow> bool \<Rightarrow> zone list \<Rightarrow> zone list" where
  "append_zones_loop zones [] flag appended_zones = appended_zones"
| "append_zones_loop zones (index # rest) flag appended_zones =
     (if flag then append_zones_loop zones rest False appended_zones
      else if z_high (zones ! (index - 1)) \<ge> z_low (zones ! index)
      then append_zones_loop zones rest True
             (appended_zones @
                [\<lparr>z_close_timestamp = z_close_timestamp (zones ! (index - 1)),
                  z_high = z_high (zones ! index),
                  z_low = z_low (zones ! (index - 1))\<rparr>])
      else append_zones_loop zones rest False
             (appended_zones @
                [\<lparr>z_close_timestamp = z_close_timestamp (zones ! (index - 1)),
                  z_high = z_high (zones ! (index - 1)),
                  z_low = z_low (zones ! (index - 1))\<rparr>]))"

text \<open>
  After the loop \<^verbatim>\<open>last_zone\<close> is built from the loop variable \<^verbatim>\<open>index\<close> and added
  in every case. With fewer than two zones the loop body never runs, \<^verbatim>\<open>index\<close> has
  no value and reading it raises \<^verbatim>\<open>UnboundLocalError\<close>. Otherwise \<^verbatim>\<open>index\<close> holds
  the last value of the range, \<open>length zones - 1\<close>.
\<close>

definition append_zones :: "zone list \<Rightarrow> error + zone list" where
  "append_zones zones =
     (if length zones < 2 then Inl UnboundLocalError
      else
        let appended_zones = append_zones_loop zones [1 ..< length zones] False [];
            index = length zones - 1;
            last_zone =
              \<lparr>z_close_timestamp = z_close_timestamp (zones ! (index - 1)),
               z_high = z_high (zones ! (length zones - 1)),
               z_low = z_low (zones ! (length zones - 1))\<rparr>
        in Inr (appended_zones @ [last_zone]))"

text \<open>
  The loop at the head of \<^verbatim>\<open>generate_chart\<close>:
  \<^verbatim>\<open>while len(zones) > len(append_zones(zones)): zones = append_zones(zones)\<close>.
  The result is the frame the chart is drawn from.
\<close>

function generate_chart_zones :: "zone list \<Rightarrow> error + zone list" where
  "generate_chart_zones zones =
     (case append_zones zones of
        Inl e \<Rightarrow> Inl e
      | Inr appended_zones \<Rightarrow>
          if length zones > length appended_zones
          then generate_chart_zones appended_zones
          else Inr zones)"
  by pat_completeness auto
termination
  by (relation "measure length") auto

declare generate_chart_zones.simps [simp del]

section \<open>Notions used to state the properties of the token conversion\<close>

text \<open>
  A character that is no digit, no sign, no underscore and no white space: \<^verbatim>\<open>int\<close>
  accepts no string that holds one.
\<close>

definition foreign :: "char \<Rightarrow> bool" where
  "foreign c \<longleftrightarrow> \<not> is_digit c \<and> \<not> is_space c \<and> c \<noteq> CHR ''+'' \<and> c \<noteq> CHR ''-'' \<and> c \<noteq> CHR ''_''"

section \<open>Notions used to state and prove the properties of the normalizer\<close>

text \<open>
  A frame is contiguous when every row closes one millisecond before the next opens.
\<close>

fun contiguous :: "candle list \<Rightarrow> bool" where
  "contiguous (a # b # rest) \<longleftrightarrow>
     close_timestamp a + 1 = open_timestamp b \<and> contiguous (b # rest)"
| "contiguous rows = True"

text \<open>
  Candles as an exchange delivers them: every candle but the last opens no later than it
  closes, and closes before the next one opens. Such a frame is ordered by
  \<open>open_timestamp\<close> with unique timestamps.
\<close>

fun well_spaced :: "'a candle_scheme list \<Rightarrow> bool" where
  "well_spaced (a # b # rest) \<longleftrightarrow>
     open_timestamp a \<le> close_timestamp a \<and> close_timestamp a < open_timestamp b \<and>
     well_spaced (b # rest)"
| "well_spaced rows = True"

text \<open>
  The fillers the loop adds for the given indices, in the order it adds them, and the
  frame with each filler right behind the row it follows.
\<close>

definition fillers :: "candle list \<Rightarrow> nat list \<Rightarrow> candle list" where
  "fillers data indices =
     map (\<lambda>i. new_row (data ! (i - 1)) (data ! i))
       (filter (\<lambda>i. close_timestamp (data ! (i - 1)) + 1 \<noteq> open_timestamp (data ! i)) indices)"

fun fill_gaps :: "candle list \<Rightarrow> candle list" where
  "fill_gaps (a # b # rest) =
     (if close_timestamp a + 1 \<noteq> open_timestamp b
      then a # new_row a b # fill_gaps (b # rest)
      else a # fill_gaps (b # rest))"
| "fill_gaps rows = rows"

section \<open>Notions used to state the properties of the merger\<close>

text \<open>Every zone ends strictly below the start of the next one.\<close>

fun non_overlapping :: "zone list \<Rightarrow> bool" where
  "non_overlapping (a # b # rest) \<longleftrightarrow> z_high a < z_low b \<and> non_overlapping (b # rest)"
| "non_overlapping zones = True"

text \<open>The two zones a pass of the loop can add at \<open>index\<close>.\<close>

definition merged_zone :: "zone list \<Rightarrow> nat \<Rightarrow> zone" where
  "merged_zone zones index =
     \<lparr>z_close_timestamp = z_close_timestamp (zones ! (index - 1)),
      z_high = z_high (zones ! index), z_low = z_low (zones ! (index - 1))\<rparr>"

definition copied_zone :: "zone list \<Rightarrow> nat \<Rightarrow> zone" where
  "copied_zone zones index =
     \<lparr>z_close_timestamp = z_close_timestamp (zones ! (index - 1)),
      z_high = z_high (zones ! (index - 1)), z_low = z_low (zones ! (index - 1))\<rparr>"

section \<open>Notions used to prove the properties of the classifier\<close>

text \<open>The test of the loop body and the assignment it guards.\<close>

definition neighbour_test :: "nat \<Rightarrow> classified_candle list \<Rightarrow> nat \<Rightarrow> bool" where
  "neighbour_test nocffz data index \<longleftrightarrow>
     sum_list (map (\<lambda>i. momentum (data ! i))
        (filter (\<lambda>i. i \<noteq> index) [index - nocffz ..< index + nocffz + 1]))
       / real (2 * nocffz)
     > 6 * momentum (data ! index)"

definition mark_base :: "classified_candle list \<Rightarrow> nat \<Rightarrow> classified_candle list" where
  "mark_base data index = data[index := (data ! index)\<lparr>candle_type := Base\<rparr>]"

section \<open>Example data\<close>

text \<open>
  A classified candle with the given open and close timestamps, low, high and type; the
  other columns do not matter to the detector.
\<close>

definition example_candle ::
  "int \<Rightarrow> int \<Rightarrow> real \<Rightarrow> real \<Rightarrow> candle_type \<Rightarrow> classified_candle" where
  "example_candle ot ct lo hi ty =
     \<lparr>open_timestamp = ot, c_open = lo, c_high = hi, c_low = lo, c_close = hi,
      volume = 1, close_timestamp = ct, trades_number = 1, volume_per_trade = Some 1,
      candle_type = ty, momentum = hi - lo\<rparr>"

text \<open>
  A row of \<^verbatim>\<open>get_candles\<close> with the given open and close timestamps and all prices,
  the volume and the number of trades equal to 1, and the same row after the four
  unused columns are dropped.
\<close>

definition example_kline :: "int \<Rightarrow> int \<Rightarrow> kline" where
  "example_kline ot ct =
     \<lparr>open_timestamp = ot, c_open = 1, c_high = 1, c_low = 1, c_close = 1, volume = 1,
      close_timestamp = ct, trades_number = 1, qvolume = 1, taker_buy_base_volume = 1,
      taker_buy_quote_volume = 1, ignore = 0\<rparr>"

definition example_row :: "int \<Rightarrow> int \<Rightarrow> candle" where
  "example_row ot ct =
     \<lparr>open_timestamp = ot, c_open = 1, c_high = 1, c_low = 1, c_close = 1, volume = 1,
      close_timestamp = ct, trades_number = 1\<rparr>"

text \<open>A row of the classifier's input with the given open and close price.\<close>

definition example_vpt :: "real \<Rightarrow> real \<Rightarrow> vpt_candle" where
  "example_vpt op cl =
     \<lparr>open_timestamp = 0, c_open = op, c_high = max op cl, c_low = min op cl, c_close = cl,
      volume = 1, close_timestamp = 99, trades_number = 1, volume_per_trade = Some 1\<rparr>"

section \<open>Timeframe tokens and the duration 0\<close>

text \<open>
  Digits are no white space, no sign and no underscore, so on a string of digits
  \<^verbatim>\<open>int\<close> finds nothing to strip and no sign, and reads its value, unless the string
  has more digits than the interpreter allows.
\<close>

lemma digit_not_space: "is_digit c \<Longrightarrow> \<not> is_space c"
  by (auto simp: is_digit_def is_space_def)

lemma digit_not_sign: "is_digit c \<Longrightarrow> c \<noteq> CHR ''-'' \<and> c \<noteq> CHR ''+''"
  by (auto simp: is_digit_def)

lemma underscore_not_digit: "\<not> is_digit CHR ''_''"
  by (simp add: is_digit_def)

lemma sign_not_space: "\<not> is_space CHR ''+''" "\<not> is_space CHR ''-''"
  by (simp_all add: is_space_def)

lemma strip_ends:
  assumes "s \<noteq> []" and "\<not> is_space (hd s)" and "\<not> is_space (last s)"
  shows "strip s = s"
proof -
  from assms have "dropWhile is_space s = s" by (cases s) simp_all
  moreover from assms have "dropWhile is_space (rev s) = rev s"
    by (cases "rev s") (simp_all add: last_rev [symmetric] hd_rev)
  ultimately show ?thesis by (simp add: strip_def)
qed

lemma strip_digit_string: "digit_string ds \<Longrightarrow> strip ds = ds"
  by (rule strip_ends)
     (auto simp: digit_string_def list_all_iff digit_not_space)

lemma digits_acc_digits:
  "list_all is_digit ds \<Longrightarrow>
   digits_acc n ds = Some (foldl (\<lambda>n c. 10 * n + digit_val c) n ds)"
  by (induction n ds rule: digits_acc.induct) simp_all

lemma filter_digits: "list_all is_digit ds \<Longrightarrow> filter is_digit ds = ds"
  by (simp add: list_all_iff)

lemma py_int_digit_string:
  assumes "digit_string ds"
  shows "py_int maxd ds =
     (if too_many_digits maxd (length ds) then None else Some (decimal ds))"
proof -
  from assms obtain d rest where c: "ds = d # rest" and d: "is_digit d"
    and r: "list_all is_digit rest"
    by (cases ds) (auto simp: digit_string_def)
  from assms have "strip ds = ds" by (rule strip_digit_string)
  moreover from c d r have "filter is_digit (d # rest) = d # rest"
    by (intro filter_digits) simp
  ultimately show ?thesis using c d r
    by (simp add: py_int_def digit_not_sign digits_acc_digits decimal_def
          del: filter.simps)
qed

text \<open>
  What \<^verbatim>\<open>int\<close> accepts beyond the strings of digits: a sign in front, white space
  at both ends, and an underscore between two digits.
\<close>

lemma py_int_signed:
  assumes "digit_string ds"
  shows "py_int maxd (CHR ''+'' # ds) =
           (if too_many_digits maxd (length ds) then None else Some (decimal ds))"
    and "py_int maxd (CHR ''-'' # ds) =
           (if too_many_digits maxd (length ds) then None else Some (- decimal ds))"
proof -
  from assms obtain d rest where c: "ds = d # rest" and d: "is_digit d"
    and r: "list_all is_digit rest"
    by (cases ds) (auto simp: digit_string_def)
  from c d r have l: "\<not> is_space (last (x # ds))" for x
    using assms by (auto simp: digit_string_def list_all_iff digit_not_space)
  have "strip (CHR ''+'' # ds) = CHR ''+'' # ds" "strip (CHR ''-'' # ds) = CHR ''-'' # ds"
    by (rule strip_ends; simp add: sign_not_space l del: last.simps)+
  moreover from c d r have "filter is_digit (d # rest) = d # rest"
    by (intro filter_digits) simp
  ultimately show "py_int maxd (CHR ''+'' # ds) =
           (if too_many_digits maxd (length ds) then None else Some (decimal ds))"
    and "py_int maxd (CHR ''-'' # ds) =
           (if too_many_digits maxd (length ds) then None else Some (- decimal ds))"
    using c d r
    by (simp_all add: py_int_def digits_acc_digits decimal_def del: filter.simps)
qed

lemma strip_spaces:
  assumes "list_all is_space ws" and "list_all is_space ws'"
  shows "strip (ws @ p @ ws') = strip p"
proof -
  from assms(1) have l: "dropWhile is_space (ws @ p @ ws') = dropWhile is_space (p @ ws')"
    by (simp add: dropWhile_append list_all_iff)
  show ?thesis
  proof (cases "\<forall>c\<in>set p. is_space c")
    case True
    with assms(2) have e: "dropWhile is_space (p @ ws') = []" "dropWhile is_space p = []"
      by (simp_all add: list_all_iff)
    have "dropWhile is_space (ws @ p @ ws') = dropWhile is_space p"
      by (simp only: l e)
    then show ?thesis by (simp only: strip_def)
  next
    case False
    then have a: "dropWhile is_space (p @ ws') = dropWhile is_space p @ ws'"
      by (auto simp: dropWhile_append)
    have b: "dropWhile is_space (rev (dropWhile is_space p @ ws')) =
             dropWhile is_space (rev (dropWhile is_space p))"
      using assms(2) by (auto simp: dropWhile_append list_all_iff)
    show ?thesis by (simp only: strip_def l a b)
  qed
qed

lemma py_int_spaces:
  "list_all is_space ws \<Longrightarrow> list_all is_space ws' \<Longrightarrow>
   py_int maxd (ws @ p @ ws') = py_int maxd p"
  by (simp only: py_int_def strip_spaces)

lemma digits_acc_underscore:
  "list_all is_digit xs \<Longrightarrow> is_digit y \<Longrightarrow> list_all is_digit ys \<Longrightarrow>
   digits_acc n (xs @ CHR ''_'' # y # ys) =
     Some (foldl (\<lambda>n c. 10 * n + digit_val c) n (xs @ y # ys))"
proof (induction xs arbitrary: n)
  case Nil
  then show ?case by (simp add: digits_acc_digits underscore_not_digit)
next
  case (Cons x xs)
  then show ?case
    by (cases "xs @ CHR ''_'' # y # ys") simp_all
qed

lemma py_int_underscore:
  assumes "digit_string a" and "digit_string b"
  shows "py_int maxd (a @ CHR ''_'' # b) =
     (if too_many_digits maxd (length a + length b) then None else Some (decimal (a @ b)))"
proof -
  from assms(1) obtain d xs where a: "a = d # xs" and d: "is_digit d"
    and xs: "list_all is_digit xs"
    by (cases a) (auto simp: digit_string_def)
  from assms(2) obtain y ys where b: "b = y # ys" and y: "is_digit y"
    and ys: "list_all is_digit ys"
    by (cases b) (auto simp: digit_string_def)
  have "\<not> is_space (last (a @ CHR ''_'' # b))"
    using assms(2) by (auto simp: digit_string_def list_all_iff digit_not_space)
  moreover have "\<not> is_space (hd (a @ CHR ''_'' # b))"
    using a d by (simp add: digit_not_space)
  ultimately have st: "strip (a @ CHR ''_'' # b) = a @ CHR ''_'' # b"
    by (intro strip_ends) simp_all
  have f: "filter is_digit (a @ CHR ''_'' # b) = a @ b"
    using assms by (simp add: digit_string_def filter_digits underscore_not_digit)
  have acc: "digits_acc (digit_val d) (xs @ CHR ''_'' # y # ys) =
     Some (foldl (\<lambda>n c. 10 * n + digit_val c) (digit_val d) (xs @ y # ys))"
    using xs y ys by (rule digits_acc_underscore)
  have "py_int maxd (d # xs @ CHR ''_'' # y # ys) =
     (if too_many_digits maxd (length (d # xs) + length (y # ys)) then None
      else Some (decimal ((d # xs) @ y # ys)))"
    using st f acc d unfolding a b
    by (simp add: py_int_def digit_not_sign decimal_def del: filter.simps filter_append)
  then show ?thesis by (simp add: a b)
qed

text \<open>
  A prefix that \<^verbatim>\<open>int\<close> accepts is multiplied with the duration of the unit, whatever
  the prefix looks like.
\<close>

lemma convert_timeframe_accepted:
  assumes "s \<noteq> []" and "is_unit (last s)" and "py_int maxd (butlast s) = Some n"
  shows "convert_timeframe maxd s = Inr (n * unit_ms (last s))"
  using assms by (auto simp: convert_timeframe_def Let_def is_unit_def unit_ms_def)

lemma convert_timeframe_digits:
  assumes "digit_string ds" and "\<not> too_many_digits maxd (length ds)" and "is_unit u"
  shows "convert_timeframe maxd (ds @ [u]) = Inr (decimal ds * unit_ms u)"
  using convert_timeframe_accepted [of "ds @ [u]" maxd "decimal ds"] assms
  by (simp add: py_int_digit_string)

text \<open>
  Every other way through \<^verbatim>\<open>convert_timeframe\<close> on a token that is not empty ends in
  the value 0, returned like any duration. The caller \<^verbatim>\<open>get_candles\<close> divides by it.
\<close>

lemma convert_timeframe_zero:
  assumes "s \<noteq> []" and "\<not> is_unit (last s) \<or> py_int maxd (butlast s) = None"
  shows "convert_timeframe maxd s = Inr 0"
  using assms by (auto simp: convert_timeframe_def Let_def is_unit_def split: option.splits)

lemma zero_duration_raises:
  "convert_timeframe maxd s = Inr 0 \<Longrightarrow>
   last_timestamp_in_timeframe maxd now s = Inl ZeroDivisionError"
  by (simp add: last_timestamp_in_timeframe_def)

text \<open>A foreign character survives the stripping and stops the reading of digits.\<close>

lemma digits_acc_Some_chars:
  "digits_acc n cs = Some v \<Longrightarrow> \<forall>c\<in>set cs. is_digit c \<or> c = CHR ''_''"
  by (induction n cs rule: digits_acc.induct) (auto split: if_splits)

lemma set_dropWhile_keeps:
  "c \<in> set xs \<Longrightarrow> \<not> P c \<Longrightarrow> c \<in> set (dropWhile P xs)"
  by (induction xs) auto

lemma foreign_in_strip: "c \<in> set s \<Longrightarrow> \<not> is_space c \<Longrightarrow> c \<in> set (strip s)"
  by (simp add: strip_def set_dropWhile_keeps)

lemma py_int_foreign:
  assumes "c \<in> set s" and "foreign c"
  shows "py_int maxd s = None"
proof (rule ccontr)
  assume "py_int maxd s \<noteq> None"
  then obtain v where v: "py_int maxd s = Some v" by auto
  from assms have c: "c \<in> set (strip s)" by (simp add: foreign_in_strip foreign_def)
  then obtain x xs where t: "strip s = x # xs" by (cases "strip s") auto
  define body where "body = (if x = CHR ''-'' \<or> x = CHR ''+'' then xs else x # xs)"
  from c t assms(2) have cb: "c \<in> set body"
    by (auto simp: body_def foreign_def)
  then obtain d rest where b: "body = d # rest" by (cases body) auto
  from v t b have d: "is_digit d" and "\<exists>w. digits_acc (digit_val d) rest = Some w"
    by (auto simp: py_int_def body_def split: if_splits option.splits)
  then have "\<forall>c\<in>set rest. is_digit c \<or> c = CHR ''_''"
    using digits_acc_Some_chars by blast
  with d cb b assms(2) show False by (auto simp: foreign_def)
qed

text \<open>
  C9 as stated: a token whose prefix is not a number in the token grammar (one or more
  digits) yields 0 and an error. The prefix \<^verbatim>\<open>+5\<close> is no digit string, but \<^verbatim>\<open>int\<close>
  accepts a sign: the token \<^verbatim>\<open>+5m\<close> yields 300000, and \<^verbatim>\<open>get_candles\<close> takes the
  clock modulo this duration without an error. The digit limit is the interpreter's
  default, 4300.
\<close>

theorem convert_timeframe_sign_counterexample:
  "\<not> digit_string ''+5'' \<and>
   convert_timeframe 4300 ''+5m'' = Inr 300000 \<and>
   last_timestamp_in_timeframe 4300 1000000 ''+5m'' = Inr 900000"
  by (simp add: last_timestamp_in_timeframe_def convert_timeframe_def py_int_def strip_def
        is_space_def is_digit_def digit_val_def digit_string_def too_many_digits_def)

text \<open>
  C9 (as amended), for tokens of characters below code point 256 and every digit limit
  \<open>maxd\<close> of the interpreter (0 for none).
  \<^item> A token of one or more digits, not more than the limit allows, and then \<^verbatim>\<open>m\<close>,
    \<^verbatim>\<open>h\<close>, \<^verbatim>\<open>d\<close> or \<^verbatim>\<open>w\<close> yields the number times 60000, 60000 * 60,
    60000 * 60 * 24 or 60000 * 60 * 24 * 7.
  \<^item> A token that is not empty and whose last character is none of the four, or whose
    prefix \<^verbatim>\<open>int\<close> rejects, yields the value 0; \<^verbatim>\<open>convert_timeframe\<close> raises nothing,
    and its caller \<^verbatim>\<open>get_candles\<close> then fails with \<^verbatim>\<open>ZeroDivisionError\<close> where it
    takes the clock modulo the duration.
  \<^item> \<^verbatim>\<open>int\<close> rejects every prefix that holds a character other than digits, signs,
    underscores and white space, and every string of digits with more digits than the
    limit allows.
  \<^item> A token that ends in one of the four units and whose prefix \<^verbatim>\<open>int\<close> accepts
    yields the value of the prefix times the duration of the unit, also when the prefix
    is no string of digits.
  \<^item> \<^verbatim>\<open>int\<close> accepts a string of digits within the limit with \<^verbatim>\<open>+\<close> or \<^verbatim>\<open>-\<close> in
    front, with its value and with the negated value; it reads a string with white
    space added at both ends as it reads the string without; and it accepts two
    strings of digits joined by one underscore, within the limit, with the value of
    the digits.
\<close>

theorem convert_timeframe_durations:
  "(digit_string ds \<and> \<not> too_many_digits maxd (length ds) \<and> is_unit u \<longrightarrow>
      convert_timeframe maxd (ds @ [u]) = Inr (decimal ds * unit_ms u)) \<and>
   (s \<noteq> [] \<and> (\<not> is_unit (last s) \<or> py_int maxd (butlast s) = None) \<longrightarrow>
      convert_timeframe maxd s = Inr 0 \<and>
      last_timestamp_in_timeframe maxd now s = Inl ZeroDivisionError) \<and>
   ((\<exists>c\<in>set p. foreign c) \<or> (digit_string p \<and> too_many_digits maxd (length p)) \<longrightarrow>
      py_int maxd p = None) \<and>
   (t \<noteq> [] \<and> is_unit (last t) \<and> py_int maxd (butlast t) = Some n \<longrightarrow>
      convert_timeframe maxd t = Inr (n * unit_ms (last t))) \<and>
   (digit_string ds \<and> \<not> too_many_digits maxd (length ds) \<longrightarrow>
      py_int maxd (CHR ''+'' # ds) = Some (decimal ds) \<and>
      py_int maxd (CHR ''-'' # ds) = Some (- decimal ds)) \<and>
   (list_all is_space ws \<and> list_all is_space ws' \<longrightarrow>
      py_int maxd (ws @ q @ ws') = py_int maxd q) \<and>
   (digit_string a \<and> digit_string b \<and> \<not> too_many_digits maxd (length a + length b) \<longrightarrow>
      py_int maxd (a @ CHR ''_'' # b) = Some (decimal (a @ b)))"
proof (intro conjI impI)
  assume "digit_string ds \<and> \<not> too_many_digits maxd (length ds) \<and> is_unit u"
  then show "convert_timeframe maxd (ds @ [u]) = Inr (decimal ds * unit_ms u)"
    by (simp add: convert_timeframe_digits)
next
  assume "s \<noteq> [] \<and> (\<not> is_unit (last s) \<or> py_int maxd (butlast s) = None)"
  then show z: "convert_timeframe maxd s = Inr 0"
    by (intro convert_timeframe_zero) simp_all
  then show "last_timestamp_in_timeframe maxd now s = Inl ZeroDivisionError"
    by (rule zero_duration_raises)
next
  assume "(\<exists>c\<in>set p. foreign c) \<or> (digit_string p \<and> too_many_digits maxd (length p))"
  then show "py_int maxd p = None"
    using py_int_foreign [of _ p maxd] py_int_digit_string [of p maxd] by auto
next
  assume "t \<noteq> [] \<and> is_unit (last t) \<and> py_int maxd (butlast t) = Some n"
  then show "convert_timeframe maxd t = Inr (n * unit_ms (last t))"
    by (intro convert_timeframe_accepted) simp_all
next
  assume "digit_string ds \<and> \<not> too_many_digits maxd (length ds)"
  then show "py_int maxd (CHR ''+'' # ds) = Some (decimal ds)"
    and "py_int maxd (CHR ''-'' # ds) = Some (- decimal ds)"
    by (simp_all add: py_int_signed)
next
  assume "list_all is_space ws \<and> list_all is_space ws'"
  then show "py_int maxd (ws @ q @ ws') = py_int maxd q"
    by (simp add: py_int_spaces)
next
  assume "digit_string a \<and> digit_string b \<and> \<not> too_many_digits maxd (length a + length b)"
  then show "py_int maxd (a @ CHR ''_'' # b) = Some (decimal (a @ b))"
    by (simp add: py_int_underscore)
qed

theorem convert_timeframe_durations_witness:
  "digit_string ''15'' \<and> \<not> too_many_digits 4300 (length ''15'') \<and> is_unit CHR ''m'' \<and>
   convert_timeframe 4300 ''15m'' = Inr 900000 \<and>
   ''1x5'' \<noteq> [] \<and> \<not> is_unit (last ''1x5'') \<and> py_int 4300 (butlast ''1x5'') = None \<and>
   convert_timeframe 4300 ''1x5'' = Inr 0 \<and>
   last_timestamp_in_timeframe 4300 1000000 ''1x5'' = Inl ZeroDivisionError \<and>
   (\<exists>c\<in>set ''1x''. foreign c) \<and> py_int 4300 ''1x'' = None \<and>
   ''-2h'' \<noteq> [] \<and> is_unit (last ''-2h'') \<and> py_int 4300 (butlast ''-2h'') = Some (- 2) \<and>
   convert_timeframe 4300 ''-2h'' = Inr (- 7200000) \<and>
   py_int 4300 ''+15'' = Some 15 \<and> py_int 4300 ''-15'' = Some (- 15) \<and>
   list_all is_space '' '' \<and> list_all is_space [CHR 0xA0] \<and>
   py_int 4300 ('' '' @ ''7'' @ [CHR 0xA0]) = Some 7 \<and>
   digit_string ''1'' \<and> digit_string ''0'' \<and>
   \<not> too_many_digits 4300 (length ''1'' + length ''0'') \<and>
   py_int 4300 ''1_0'' = Some 10"
  using convert_timeframe_durations
    [where ds = "''15''" and u = "CHR ''m''" and maxd = 4300 and s = "''1x5''"
       and now = 1000000 and p = "''1x''" and t = "''-2h''" and n = "- 2"
       and ws = "'' ''" and ws' = "[CHR 0xA0]" and q = "''7''"
       and a = "''1''" and b = "''0''"]
  by (simp add: last_timestamp_in_timeframe_def convert_timeframe_def py_int_def strip_def
        is_space_def is_digit_def digit_val_def digit_string_def is_unit_def foreign_def
        too_many_digits_def)

text \<open>The empty token has no last character: the conversion raises \<^verbatim>\<open>IndexError\<close>.\<close>

lemma convert_timeframe_empty: "convert_timeframe maxd [] = Inl IndexError"
  by (simp add: convert_timeframe_def)

text \<open>
  Two tokens beyond ASCII and beyond the limit: a no-break space before the digits is
  stripped, and 4301 digits are rejected under the default limit of 4300 and read
  without a limit.
\<close>

lemma convert_timeframe_no_break_space:
  "convert_timeframe 4300 [CHR 0xA0, CHR ''5'', CHR ''m''] = Inr 300000"
  by (simp add: convert_timeframe_def py_int_def strip_def
        is_space_def is_digit_def digit_val_def too_many_digits_def)

lemma convert_timeframe_over_the_limit:
  "convert_timeframe 4300 (replicate 4301 CHR ''1'' @ ''m'') = Inr 0 \<and>
   convert_timeframe 0 (replicate 4301 CHR ''1'' @ ''m'') =
     Inr (decimal (replicate 4301 CHR ''1'') * 60000)"
proof
  have ds: "digit_string (replicate 4301 CHR ''1'')"
    by (simp add: digit_string_def list_all_iff is_digit_def)
  then have "py_int 4300 (replicate 4301 CHR ''1'') = None"
    by (simp add: py_int_digit_string too_many_digits_def)
  then show "convert_timeframe 4300 (replicate 4301 CHR ''1'' @ ''m'') = Inr 0"
    by (intro convert_timeframe_zero) simp_all
  show "convert_timeframe 0 (replicate 4301 CHR ''1'' @ ''m'') =
     Inr (decimal (replicate 4301 CHR ''1'') * 60000)"
    using convert_timeframe_digits [OF ds, of 0 "CHR ''m''"]
    by (simp add: too_many_digits_def is_unit_def unit_ms_def)
qed

section \<open>The normalizer fills every mismatch with one row\<close>

text \<open>
  The loop leaves the rows it was given in place and adds the fillers behind them.
\<close>

lemma missing_candles_loop_append:
  "\<forall>i\<in>set indices. i < length data \<Longrightarrow>
   missing_candles_loop indices (data @ ex) = data @ ex @ fillers data indices"
proof (induction indices arbitrary: ex)
  case Nil
  show ?case by (simp add: fillers_def)
next
  case (Cons index rest)
  then have lt: "index < length data" "index - 1 < length data" by auto
  have IH: "missing_candles_loop rest (data @ ex') = data @ ex' @ fillers data rest" for ex'
    using Cons by simp
  show ?case
    using lt IH [of ex] IH [of "ex @ [new_row (data ! (index - 1)) (data ! index)]"]
    by (simp add: nth_append fillers_def)
qed

lemma missing_candles_loop_eq:
  "missing_candles_loop [1 ..< length data] data = data @ fillers data [1 ..< length data]"
  using missing_candles_loop_append [of "[1 ..< length data]" data "[]"] by simp

lemma new_row_fields:
  "new_row prev cur =
     \<lparr>open_timestamp = close_timestamp prev + 1, c_open = c_close prev,
      c_high = max (c_close prev) (c_open cur), c_low = min (c_close prev) (c_open cur),
      c_close = c_open cur, volume = (volume prev + volume cur) / 2,
      close_timestamp = open_timestamp cur - 1,
      trades_number = (trades_number prev + trades_number cur) / 2\<rparr>"
  by (simp add: new_row_def Let_def)

lemma generate_missing_candles_eq:
  "generate_missing_candles klines =
     Inr (sort_key open_timestamp
       (map candle.truncate klines @
        fillers (map candle.truncate klines) [1 ..< length klines]))"
  using missing_candles_loop_eq [of "map candle.truncate klines"]
  by (simp add: generate_missing_candles_def Let_def)

text \<open>The same fillers, read off the pairs of neighbouring rows.\<close>

lemma pairs_by_index:
  "map (\<lambda>i. (data ! (i - 1), data ! i)) [1 ..< length data] = zip data (tl data)"
  by (rule nth_equalityI) (auto simp: nth_tl)

lemma fillers_zip:
  "fillers data [1 ..< length data] =
     map (\<lambda>(a, b). new_row a b)
       (filter (\<lambda>(a, b). close_timestamp a + 1 \<noteq> open_timestamp b) (zip data (tl data)))"
  unfolding pairs_by_index [symmetric] fillers_def
  by (simp add: filter_map comp_def)

lemma mset_fill_gaps:
  "mset (fill_gaps data) =
     mset data + mset (map (\<lambda>(a, b). new_row a b)
       (filter (\<lambda>(a, b). close_timestamp a + 1 \<noteq> open_timestamp b) (zip data (tl data))))"
  by (induction data rule: fill_gaps.induct) simp_all

text \<open>
  With each filler behind the row it follows the frame is contiguous, whatever the
  rows are: a filler opens one millisecond after the row before it closes and closes
  one millisecond before the next row opens.
\<close>

lemma hd_fill_gaps: "fill_gaps (b # rest) = b # tl (fill_gaps (b # rest))"
  by (cases rest) simp_all

lemma contiguous_Cons_fill_gaps:
  "contiguous (x # fill_gaps (b # rest)) \<longleftrightarrow>
     close_timestamp x + 1 = open_timestamp b \<and> contiguous (fill_gaps (b # rest))"
  by (cases rest) simp_all

lemma contiguous_fill_gaps: "contiguous (fill_gaps data)"
proof (induction data rule: fill_gaps.induct)
  case (1 a b rest)
  then have "contiguous (fill_gaps (b # rest))" by blast
  then show ?case
    by (simp add: contiguous_Cons_fill_gaps new_row_fields)
qed simp_all

text \<open>
  A list whose keys increase strictly is the only sorted arrangement of its rows, so
  any sorting procedure, stable or not, returns it.
\<close>

lemma filter_key_single:
  "distinct (map f xs) \<Longrightarrow> k \<in> set xs \<Longrightarrow> filter (\<lambda>x. f k = f x) xs = [k]"
proof (induction xs)
  case Nil
  then show ?case by simp
next
  case (Cons x xs)
  show ?case
  proof (cases "k = x")
    case True
    with Cons.prems have "\<forall>y\<in>set xs. f x \<noteq> f y" by auto
    then have "filter (\<lambda>y. f x = f y) xs = []" by (simp add: filter_empty_conv)
    with True show ?thesis by simp
  next
    case False
    with Cons.prems have k: "k \<in> set xs" by simp
    then have "f k \<in> f ` set xs" by simp
    moreover from Cons.prems have "f x \<notin> f ` set xs" by simp
    ultimately have "f k \<noteq> f x" by metis
    with k Cons show ?thesis by simp
  qed
qed

lemma sort_key_unique:
  assumes "mset ys = mset xs" and "sorted_wrt (<) (map f ys)"
  shows "sort_key f xs = ys"
proof (rule properties_for_sort_key)
  show "mset ys = mset xs" by fact
  from assms(2) have dy: "distinct (map f ys)" and "sorted (map f ys)"
    by (simp_all add: strict_sorted_iff)
  then show "sorted (map f ys)" by simp
  from assms(1) have "mset (map f ys) = mset (map f xs)" by simp
  with dy have dx: "distinct (map f xs)" by (metis mset_eq_imp_distinct_iff)
  fix k assume k: "k \<in> set ys"
  with assms(1) have "k \<in> set xs" by (metis set_mset_mset)
  with k dx dy show "filter (\<lambda>x. f k = f x) ys = filter (\<lambda>x. f k = f x) xs"
    by (simp add: filter_key_single)
qed

lemma strict_fill_gaps:
  "well_spaced data \<Longrightarrow> sorted_wrt (<) (map open_timestamp (fill_gaps data))"
proof (induction data rule: fill_gaps.induct)
  case (1 a b rest)
  then have ws: "open_timestamp a \<le> close_timestamp a" "close_timestamp a < open_timestamp b"
    and IH: "sorted_wrt (<) (map open_timestamp (fill_gaps (b # rest)))" by auto
  obtain ys where ys: "fill_gaps (b # rest) = b # ys" using hd_fill_gaps by blast
  from IH ys have "\<forall>y\<in>set ys. open_timestamp b < open_timestamp y" by simp
  with ws IH ys show ?case
    by (auto simp: new_row_fields)
qed simp_all

lemma well_spaced_truncate: "well_spaced (map candle.truncate klines) = well_spaced klines"
  by (induction klines rule: well_spaced.induct) (simp_all add: candle.truncate_def)

lemma generate_missing_candles_well_spaced:
  assumes "well_spaced klines"
  shows "generate_missing_candles klines = Inr (fill_gaps (map candle.truncate klines))"
proof -
  let ?data = "map candle.truncate klines"
  have "mset (fill_gaps ?data) = mset (?data @ fillers ?data [1 ..< length klines])"
    using fillers_zip [of ?data] by (simp add: mset_fill_gaps)
  moreover have "sorted_wrt (<) (map open_timestamp (fill_gaps ?data))"
    using assms by (simp add: strict_fill_gaps well_spaced_truncate)
  ultimately have "sort_key open_timestamp (?data @ fillers ?data [1 ..< length klines])
      = fill_gaps ?data"
    by (rule sort_key_unique)
  then show ?thesis by (simp add: generate_missing_candles_eq)
qed

text \<open>
  C1 (as amended). When every candle of the input but the last opens no later than it
  closes and closes before the next one opens, the normalizer returns a frame, and in
  it every row closes one millisecond before the next row opens.
\<close>

theorem normalizer_contiguous:
  assumes "well_spaced klines"
  shows "\<exists>out. generate_missing_candles klines = Inr out \<and> contiguous out"
  using assms by (simp add: generate_missing_candles_well_spaced contiguous_fill_gaps)

theorem normalizer_contiguous_witness:
  "well_spaced [example_kline 0 99, example_kline 100 199, example_kline 100000 100999]
   \<and> generate_missing_candles
       [example_kline 0 99, example_kline 100 199, example_kline 100000 100999]
     = Inr [example_row 0 99, example_row 100 199, example_row 200 99999,
            example_row 100000 100999]
   \<and> contiguous [example_row 0 99, example_row 100 199, example_row 200 99999,
            example_row 100000 100999]"
  using normalizer_contiguous
    [of "[example_kline 0 99, example_kline 100 199, example_kline 100000 100999]"]
  by (simp add: generate_missing_candles_def example_kline_def example_row_def
        candle.truncate_def new_row_def upt_rec)

text \<open>
  C1 as stated asks only for a time-ordered input. The five candles below are ordered by
  \<open>open_timestamp\<close>, with unique timestamps, but the third closes at 100999, after the
  fourth has opened at 100001. The test \<^verbatim>\<open>!=\<close> takes this for a gap too, and the
  filler for it runs from 101000 back to 100000; sorted by \<open>open_timestamp\<close> it lands
  behind the fourth candle. The output is not contiguous: 100999 + 1 is not 100001.
\<close>

theorem normalizer_overlap_counterexample:
  "generate_missing_candles
     [example_kline 0 99, example_kline 100 199, example_kline 100000 100999,
      example_kline 100001 200001, example_kline 200002 300001]
   = Inr [example_row 0 99, example_row 100 199, example_row 200 99999,
          example_row 100000 100999, example_row 100001 200001,
          example_row 101000 100000, example_row 200002 300001]
   \<and> \<not> contiguous
         [example_row 0 99, example_row 100 199, example_row 200 99999,
          example_row 100000 100999, example_row 100001 200001,
          example_row 101000 100000, example_row 200002 300001]"
  by (simp add: generate_missing_candles_def example_kline_def example_row_def
        candle.truncate_def new_row_def upt_rec)

text \<open>The fillers, written with the columns of the input rows.\<close>

lemma fillers_truncate:
  "fillers (map candle.truncate klines) [1 ..< length klines] =
     map (\<lambda>i. \<lparr>open_timestamp = close_timestamp (klines ! (i - 1)) + 1,
               c_open = c_close (klines ! (i - 1)),
               c_high = max (c_close (klines ! (i - 1))) (c_open (klines ! i)),
               c_low = min (c_close (klines ! (i - 1))) (c_open (klines ! i)),
               c_close = c_open (klines ! i),
               volume = (volume (klines ! (i - 1)) + volume (klines ! i)) / 2,
               close_timestamp = open_timestamp (klines ! i) - 1,
               trades_number =
                 (trades_number (klines ! (i - 1)) + trades_number (klines ! i)) / 2\<rparr>)
       (filter (\<lambda>i. close_timestamp (klines ! (i - 1)) + 1 \<noteq> open_timestamp (klines ! i))
          [1 ..< length klines])"
proof -
  have sel: "close_timestamp (map candle.truncate klines ! j) = close_timestamp (klines ! j)"
    "open_timestamp (map candle.truncate klines ! j) = open_timestamp (klines ! j)"
    "c_close (map candle.truncate klines ! j) = c_close (klines ! j)"
    "c_open (map candle.truncate klines ! j) = c_open (klines ! j)"
    "volume (map candle.truncate klines ! j) = volume (klines ! j)"
    "trades_number (map candle.truncate klines ! j) = trades_number (klines ! j)"
    if "j < length klines" for j
    using that by (simp_all add: candle.truncate_def)
  have filt: "filter (\<lambda>i. close_timestamp (map candle.truncate klines ! (i - 1)) + 1
                    \<noteq> open_timestamp (map candle.truncate klines ! i)) [1 ..< length klines]
      = filter (\<lambda>i. close_timestamp (klines ! (i - 1)) + 1 \<noteq> open_timestamp (klines ! i))
          [1 ..< length klines]"
    by (rule filter_cong [OF refl]) (simp add: sel less_imp_diff_less candle.truncate_def del: One_nat_def)
  show ?thesis
    unfolding fillers_def filt
    by (rule map_cong [OF refl])
       (simp add: new_row_fields sel less_imp_diff_less candle.truncate_def del: One_nat_def)
qed

text \<open>
  C7. The output of the normalizer holds the rows of the input and, for every index
  \<open>i\<close> from 1 with \<open>close_timestamp\<close> of row \<open>i - 1\<close> plus 1 different from
  \<open>open_timestamp\<close> of row \<open>i\<close>, one filler: it opens at that close timestamp plus 1
  and closes at that open timestamp minus 1, its open is the close of row \<open>i - 1\<close>,
  its close the open of row \<open>i\<close>, its high and low the larger and the smaller of the
  two, and its volume and number of trades are the means of those of the two rows.
\<close>

theorem filler_candle_fields:
  "\<exists>out. generate_missing_candles klines = Inr out \<and>
     mset out = mset (map candle.truncate klines) +
       mset (map (\<lambda>i. \<lparr>open_timestamp = close_timestamp (klines ! (i - 1)) + 1,
               c_open = c_close (klines ! (i - 1)),
               c_high = max (c_close (klines ! (i - 1))) (c_open (klines ! i)),
               c_low = min (c_close (klines ! (i - 1))) (c_open (klines ! i)),
               c_close = c_open (klines ! i),
               volume = (volume (klines ! (i - 1)) + volume (klines ! i)) / 2,
               close_timestamp = open_timestamp (klines ! i) - 1,
               trades_number =
                 (trades_number (klines ! (i - 1)) + trades_number (klines ! i)) / 2\<rparr>)
       (filter (\<lambda>i. close_timestamp (klines ! (i - 1)) + 1 \<noteq> open_timestamp (klines ! i))
          [1 ..< length klines]))"
  by (intro exI conjI, rule generate_missing_candles_eq)
     (simp only: mset_sort mset_append fillers_truncate)

theorem filler_candle_fields_witness:
  "generate_missing_candles
     [\<lparr>open_timestamp = 0, c_open = 10, c_high = 12, c_low = 9, c_close = 11, volume = 4,
       close_timestamp = 99, trades_number = 2, qvolume = 40, taker_buy_base_volume = 1,
       taker_buy_quote_volume = 10, ignore = 0\<rparr>,
      \<lparr>open_timestamp = 300, c_open = 13, c_high = 15, c_low = 12, c_close = 14, volume = 6,
       close_timestamp = 399, trades_number = 5, qvolume = 80, taker_buy_base_volume = 2,
       taker_buy_quote_volume = 26, ignore = 0\<rparr>]
   = Inr
     [\<lparr>open_timestamp = 0, c_open = 10, c_high = 12, c_low = 9, c_close = 11, volume = 4,
       close_timestamp = 99, trades_number = 2\<rparr>,
      \<lparr>open_timestamp = 100, c_open = 11, c_high = 13, c_low = 11, c_close = 13, volume = 5,
       close_timestamp = 299, trades_number = 7 / 2\<rparr>,
      \<lparr>open_timestamp = 300, c_open = 13, c_high = 15, c_low = 12, c_close = 14, volume = 6,
       close_timestamp = 399, trades_number = 5\<rparr>]"
  using filler_candle_fields
    [of "[\<lparr>open_timestamp = 0, c_open = 10, c_high = 12, c_low = 9, c_close = 11, volume = 4,
       close_timestamp = 99, trades_number = 2, qvolume = 40, taker_buy_base_volume = 1,
       taker_buy_quote_volume = 10, ignore = 0\<rparr>,
      \<lparr>open_timestamp = 300, c_open = 13, c_high = 15, c_low = 12, c_close = 14, volume = 6,
       close_timestamp = 399, trades_number = 5, qvolume = 80, taker_buy_base_volume = 2,
       taker_buy_quote_volume = 26, ignore = 0\<rparr>]"]
  by (simp add: generate_missing_candles_def candle.truncate_def new_row_def upt_rec)

text \<open>
  C8 as stated: the normalizer fails on an empty input and on an input that is not
  time-ordered. It does neither: the empty frame comes back empty, and two candles in
  the wrong order come back sorted, followed by a filler that opens at 200 and closes
  at -1.
\<close>

theorem normalizer_no_validation_counterexample:
  "generate_missing_candles [] = Inr []
   \<and> generate_missing_candles [example_kline 100 199, example_kline 0 99]
       = Inr [example_row 0 99, example_row 100 199, example_row 200 (- 1)]"
  by (simp add: generate_missing_candles_def example_kline_def example_row_def
        candle.truncate_def new_row_def upt_rec)

text \<open>
  C8 (as amended). The normalizer checks nothing and returns a frame for every input:
  the rows it was given are all in it, and it is sorted by \<open>open_timestamp\<close>. The empty
  input gives the empty frame.
\<close>

theorem normalizer_never_fails:
  "generate_missing_candles [] = Inr [] \<and>
   (\<exists>out. generate_missing_candles klines = Inr out \<and>
      sorted (map open_timestamp out) \<and>
      mset (map candle.truncate klines) \<subseteq># mset out)"
  by (simp add: generate_missing_candles_eq fillers_def)

theorem normalizer_never_fails_witness:
  "generate_missing_candles [example_kline 5 9, example_kline 5 9]
     = Inr [example_row 5 9, example_row 5 9, example_row 10 4]"
  using normalizer_never_fails [of "[example_kline 5 9, example_kline 5 9]"]
  by (simp add: generate_missing_candles_def example_kline_def example_row_def
        candle.truncate_def new_row_def upt_rec)

section \<open>The classifier compares each candle with its neighbours\<close>

text \<open>
  Marking a row as base changes no momentum, so the test of a later pass reads what the
  first pass would have read.
\<close>

lemma momentum_mark_base: "momentum (mark_base data index ! j) = momentum (data ! j)"
proof (cases "index < length data")
  case True
  then show ?thesis
    by (cases "j = index") (simp_all add: mark_base_def)
next
  case False
  then have "data[index := (data ! index)\<lparr>candle_type := Base\<rparr>] = data"
    by (intro list_update_beyond) simp
  then show ?thesis by (simp add: mark_base_def)
qed

lemma neighbour_test_mark_base:
  "neighbour_test w (mark_base data index) i = neighbour_test w data i"
  by (simp add: neighbour_test_def momentum_mark_base)

lemma length_mark_base: "length (mark_base data index) = length data"
  by (simp add: mark_base_def)

text \<open>
  With a positive window the loop does not fail, and it marks exactly the rows of its
  range that pass the test.
\<close>

lemma find_base_candles_loop_eq:
  assumes "0 < w" and "distinct indices" and "\<forall>i\<in>set indices. i < length data"
  shows "find_base_candles_loop w indices data =
     Inr (map (\<lambda>i. if i \<in> set indices \<and> neighbour_test w data i
                    then (data ! i)\<lparr>candle_type := Base\<rparr> else data ! i)
            [0 ..< length data])"
  using assms(2,3)
proof (induction indices arbitrary: data)
  case Nil
  show ?case by (simp add: map_nth)
next
  case (Cons index rest)
  from Cons.prems have idx: "index < length data" "index \<notin> set rest"
    and rest: "distinct rest" "\<forall>i\<in>set rest. i < length data" by auto
  show ?case
  proof (cases "neighbour_test w data index")
    case True
    have step: "find_base_candles_loop w (index # rest) data =
        find_base_candles_loop w rest (mark_base data index)"
      using True \<open>0 < w\<close> by (simp add: neighbour_test_def mark_base_def)
    have "find_base_candles_loop w rest (mark_base data index) =
       Inr (map (\<lambda>i. if i \<in> set rest \<and> neighbour_test w (mark_base data index) i
                    then (mark_base data index ! i)\<lparr>candle_type := Base\<rparr>
                    else mark_base data index ! i)
            [0 ..< length (mark_base data index)])"
      using rest by (intro Cons.IH) (simp_all add: length_mark_base)
    also have "\<dots> = Inr (map (\<lambda>i. if i \<in> set (index # rest) \<and> neighbour_test w data i
                    then (data ! i)\<lparr>candle_type := Base\<rparr> else data ! i)
            [0 ..< length data])"
    proof -
      have "(if i \<in> set rest \<and> neighbour_test w (mark_base data index) i
             then (mark_base data index ! i)\<lparr>candle_type := Base\<rparr>
             else mark_base data index ! i) =
            (if i \<in> set (index # rest) \<and> neighbour_test w data i
             then (data ! i)\<lparr>candle_type := Base\<rparr> else data ! i)" for i
      proof (cases "i = index")
        case True
        with idx \<open>neighbour_test w data index\<close> show ?thesis
          by (simp add: mark_base_def)
      next
        case False
        then show ?thesis
          by (simp add: neighbour_test_mark_base) (simp add: mark_base_def)
      qed
      then show ?thesis by (simp only: length_mark_base)
    qed
    finally show ?thesis using step by simp
  next
    case False
    have step: "find_base_candles_loop w (index # rest) data =
        find_base_candles_loop w rest data"
      using False \<open>0 < w\<close> by (simp add: neighbour_test_def)
    have "find_base_candles_loop w rest data =
       Inr (map (\<lambda>i. if i \<in> set rest \<and> neighbour_test w data i
                    then (data ! i)\<lparr>candle_type := Base\<rparr> else data ! i)
            [0 ..< length data])"
      using rest by (intro Cons.IH) simp_all
    also have "\<dots> = Inr (map (\<lambda>i. if i \<in> set (index # rest) \<and> neighbour_test w data i
                    then (data ! i)\<lparr>candle_type := Base\<rparr> else data ! i)
            [0 ..< length data])"
      using False by auto
    finally show ?thesis using step by simp
  qed
qed

lemma add_columns_fields:
  "momentum (add_columns row) = \<bar>c_close row - c_open row\<bar>"
  "candle_type (add_columns row) = Momentum"
  "vpt_candle.truncate (add_columns row) = row"
  "vpt_candle.truncate ((add_columns row)\<lparr>candle_type := Base\<rparr>) = row"
  by (simp_all add: add_columns_def vpt_candle.extend_def vpt_candle.truncate_def
        classified_candle.fields_def)

lemma neighbour_test_add_columns:
  assumes "i + w < length data"
  shows "neighbour_test w (map add_columns data) i \<longleftrightarrow>
     sum_list (map (\<lambda>j. \<bar>c_close (data ! j) - c_open (data ! j)\<bar>)
        (filter (\<lambda>j. j \<noteq> i) [i - w ..< i + w + 1])) / real (2 * w)
     > 6 * \<bar>c_close (data ! i) - c_open (data ! i)\<bar>"
proof -
  have "map (\<lambda>j. momentum (map add_columns data ! j))
          (filter (\<lambda>j. j \<noteq> i) [i - w ..< i + w + 1]) =
        map (\<lambda>j. \<bar>c_close (data ! j) - c_open (data ! j)\<bar>)
          (filter (\<lambda>j. j \<noteq> i) [i - w ..< i + w + 1])"
  proof (rule map_cong [OF refl])
    fix j assume "j \<in> set (filter (\<lambda>j. j \<noteq> i) [i - w ..< i + w + 1])"
    then have "j < i + w + 1" by auto
    with assms have "j < length data" by linarith
    then show "momentum (map add_columns data ! j) = \<bar>c_close (data ! j) - c_open (data ! j)\<bar>"
      by (simp add: add_columns_fields)
  qed
  moreover have "momentum (map add_columns data ! i) = \<bar>c_close (data ! i) - c_open (data ! i)\<bar>"
    using assms by (simp add: add_columns_fields)
  ultimately show ?thesis by (simp only: neighbour_test_def)
qed

lemma find_base_candles_eq:
  assumes "0 < w"
  shows "find_base_candles data w =
     Inr (map (\<lambda>i. if w \<le> i \<and> i + w < length data \<and>
                       neighbour_test w (map add_columns data) i
                    then (add_columns (data ! i))\<lparr>candle_type := Base\<rparr>
                    else add_columns (data ! i))
            [0 ..< length data])"
proof -
  have "find_base_candles data w =
     Inr (map (\<lambda>i. if i \<in> set [w ..< length data - w] \<and>
                       neighbour_test w (map add_columns data) i
                    then (map add_columns data ! i)\<lparr>candle_type := Base\<rparr>
                    else map add_columns data ! i)
            [0 ..< length (map add_columns data)])"
    unfolding find_base_candles_def using assms
    by (intro find_base_candles_loop_eq) auto
  also have "\<dots> = Inr (map (\<lambda>i. if w \<le> i \<and> i + w < length data \<and>
                       neighbour_test w (map add_columns data) i
                    then (add_columns (data ! i))\<lparr>candle_type := Base\<rparr>
                    else add_columns (data ! i))
            [0 ..< length data])"
    by (auto simp: less_diff_conv)
  finally show ?thesis .
qed

text \<open>
  C4, for a window of at least 1. The classifier returns the rows of its input, each
  with its momentum \<open>\<bar>close - open\<bar>\<close> and a type. Row \<open>i\<close> is base exactly when it has
  \<open>window\<close> rows on both sides and the momenta of the \<open>2 * window\<close> rows at
  \<open>i - window, ..., i + window\<close> without \<open>i\<close>, summed and divided by \<open>2 * window\<close>,
  exceed 6 times its own momentum; every other row, so each of the first and of the
  last \<open>window\<close> rows, is momentum.
\<close>

theorem find_base_candles_classifies:
  assumes "0 < window"
  shows "\<exists>out. find_base_candles data window = Inr out \<and> length out = length data \<and>
    (\<forall>i < length data.
       momentum (out ! i) = \<bar>c_close (data ! i) - c_open (data ! i)\<bar> \<and>
       candle_type (out ! i) =
         (if window \<le> i \<and> i + window < length data \<and>
             sum_list (map (\<lambda>j. \<bar>c_close (data ! j) - c_open (data ! j)\<bar>)
                (filter (\<lambda>j. j \<noteq> i) [i - window ..< i + window + 1]))
               / real (2 * window)
             > 6 * \<bar>c_close (data ! i) - c_open (data ! i)\<bar>
          then Base else Momentum) \<and>
       vpt_candle.truncate (out ! i) = data ! i)"
proof (intro exI conjI allI impI)
  show "find_base_candles data window = Inr (map (\<lambda>i. if window \<le> i \<and> i + window < length data \<and>
                       neighbour_test window (map add_columns data) i
                    then (add_columns (data ! i))\<lparr>candle_type := Base\<rparr>
                    else add_columns (data ! i))
            [0 ..< length data])"
    using assms by (rule find_base_candles_eq)
next
  show "length (map (\<lambda>i. if window \<le> i \<and> i + window < length data \<and>
                       neighbour_test window (map add_columns data) i
                    then (add_columns (data ! i))\<lparr>candle_type := Base\<rparr>
                    else add_columns (data ! i))
            [0 ..< length data]) = length data" by simp
next
  fix i assume "i < length data"
  then show "momentum (map (\<lambda>i. if window \<le> i \<and> i + window < length data \<and>
                       neighbour_test window (map add_columns data) i
                    then (add_columns (data ! i))\<lparr>candle_type := Base\<rparr>
                    else add_columns (data ! i))
            [0 ..< length data] ! i) = \<bar>c_close (data ! i) - c_open (data ! i)\<bar>"
    by (simp add: add_columns_fields)
next
  fix i assume i: "i < length data"
  show "candle_type (map (\<lambda>i. if window \<le> i \<and> i + window < length data \<and>
                       neighbour_test window (map add_columns data) i
                    then (add_columns (data ! i))\<lparr>candle_type := Base\<rparr>
                    else add_columns (data ! i))
            [0 ..< length data] ! i) =
         (if window \<le> i \<and> i + window < length data \<and>
             sum_list (map (\<lambda>j. \<bar>c_close (data ! j) - c_open (data ! j)\<bar>)
                (filter (\<lambda>j. j \<noteq> i) [i - window ..< i + window + 1]))
               / real (2 * window)
             > 6 * \<bar>c_close (data ! i) - c_open (data ! i)\<bar>
          then Base else Momentum)"
  proof (cases "i + window < length data")
    case True
    then show ?thesis
      using i by (simp add: neighbour_test_add_columns add_columns_fields)
  next
    case False
    then show ?thesis using i by (simp add: add_columns_fields)
  qed
next
  fix i assume "i < length data"
  then show "vpt_candle.truncate (map (\<lambda>i. if window \<le> i \<and> i + window < length data \<and>
                       neighbour_test window (map add_columns data) i
                    then (add_columns (data ! i))\<lparr>candle_type := Base\<rparr>
                    else add_columns (data ! i))
            [0 ..< length data] ! i) = data ! i"
    by (simp add: add_columns_fields)
qed

theorem find_base_candles_classifies_witness:
  "0 < (1::nat) \<and>
   map_sum id (map candle_type)
     (find_base_candles
        [example_vpt 0 10, example_vpt 5 6, example_vpt 10 0, example_vpt 3 3] 1)
   = Inr [Momentum, Base, Momentum, Momentum]"
  using find_base_candles_classifies
    [of 1 "[example_vpt 0 10, example_vpt 5 6, example_vpt 10 0, example_vpt 3 3]"]
  by (simp add: find_base_candles_def add_columns_def example_vpt_def
        vpt_candle.extend_def classified_candle.fields_def upt_rec)

text \<open>
  With the window 0 the mean is the integer division \<^verbatim>\<open>0 / 0\<close>, and the classifier
  fails on every frame that has a row.
\<close>

lemma find_base_candles_zero_window:
  "find_base_candles (row # rows) 0 = Inl ZeroDivisionError"
  by (simp add: find_base_candles_def upt_rec)

section \<open>The zone detector counts touches\<close>

text \<open>
  The early exit of the scan does not change the verdict: the counter ends at or below
  the threshold exactly when the number of all touching rows does.
\<close>

lemma count_touches_le_iff:
  "count_touches b m cs n \<le> m \<longleftrightarrow> n + int (length (filter (is_touch b) cs)) \<le> m"
proof (induction cs arbitrary: n)
  case Nil
  show ?case by simp
next
  case (Cons c cs)
  show ?case
  proof (cases "is_touch b c")
    case True
    then show ?thesis using Cons.IH [of "n + 1"] by (simp add: add.assoc)
  next
    case False
    then show ?thesis using Cons.IH [of n] by simp
  qed
qed

lemma zones_loop_eq:
  "zones_loop data m bs =
     map zone_of
       (filter (\<lambda>b. int (length (filter (is_touch b) (later_candles data b))) \<le> m) bs)"
  by (induction bs) (simp_all add: count_touches_le_iff)

lemma find_zones_mset:
  "mset (find_zones data m) =
     image_mset zone_of (filter_mset (\<lambda>b. candle_type b = Base \<and>
        int (length (filter (is_touch b) (later_candles data b))) \<le> m) (mset data))"
proof -
  have "filter (\<lambda>b. int (length (filter (is_touch b) (later_candles data b))) \<le> m)
          (filter (\<lambda>c. candle_type c = Base) data) =
        filter (\<lambda>b. candle_type b = Base \<and>
          int (length (filter (is_touch b) (later_candles data b))) \<le> m) data"
    by (simp add: conj_commute)
  then show ?thesis
    by (simp add: find_zones_def zones_loop_eq flip: mset_filter)
qed

lemma touches_written_out:
  "filter (is_touch b) (later_candles data b) =
   filter (\<lambda>c. open_timestamp c > close_timestamp b \<and>
               ((c_low b < c_high c \<and> c_high c < c_high b) \<or>
                (c_low b < c_low c \<and> c_low c < c_high b))) data"
  by (simp add: later_candles_def is_touch_def conj_commute)

text \<open>
  C3. For every row \<open>b\<close> of type base, \<open>find_zones\<close> counts the rows \<open>c\<close> with
  \<open>open_timestamp c > close_timestamp b\<close> whose high or low is strictly inside the band
  \<open>(c_low b, c_high b)\<close>, and it holds the zone of \<open>b\<close> (close timestamp, high and low of
  \<open>b\<close>) exactly when that count is at most \<open>max_touches\<close>: the zones returned are, with
  their multiplicities, the zones of the base rows that pass. The result is sorted
  ascending by low.
\<close>

theorem find_zones_keeps_by_touch_count:
  "mset (find_zones data max_touches) =
     image_mset
       (\<lambda>b. \<lparr>z_close_timestamp = close_timestamp b, z_high = c_high b, z_low = c_low b\<rparr>)
       (filter_mset
          (\<lambda>b. candle_type b = Base \<and>
               int (length (filter
                  (\<lambda>c. open_timestamp c > close_timestamp b \<and>
                       ((c_low b < c_high c \<and> c_high c < c_high b) \<or>
                        (c_low b < c_low c \<and> c_low c < c_high b))) data))
               \<le> max_touches)
          (mset data))
   \<and> sorted (map z_low (find_zones data max_touches))"
proof
  have "zone_of =
     (\<lambda>b. \<lparr>z_close_timestamp = close_timestamp b, z_high = c_high b, z_low = c_low b\<rparr>)"
    by (simp add: fun_eq_iff zone_of_def)
  then show "mset (find_zones data max_touches) =
     image_mset
       (\<lambda>b. \<lparr>z_close_timestamp = close_timestamp b, z_high = c_high b, z_low = c_low b\<rparr>)
       (filter_mset
          (\<lambda>b. candle_type b = Base \<and>
               int (length (filter
                  (\<lambda>c. open_timestamp c > close_timestamp b \<and>
                       ((c_low b < c_high c \<and> c_high c < c_high b) \<or>
                        (c_low b < c_low c \<and> c_low c < c_high b))) data))
               \<le> max_touches)
          (mset data))"
    by (simp only: find_zones_mset touches_written_out)
  show "sorted (map z_low (find_zones data max_touches))"
    by (simp add: find_zones_def)
qed

text \<open>
  Two base candles and one later candle whose high lies inside the first band only:
  with no touch allowed the second zone alone is held.
\<close>

theorem find_zones_keeps_by_touch_count_witness:
  "mset (find_zones
           [example_candle 0 99 10 20 Base, example_candle 100 199 30 40 Base,
            example_candle 200 299 5 15 Momentum] 0) =
     {#\<lparr>z_close_timestamp = 199, z_high = 40, z_low = 30\<rparr>#}
   \<and> sorted (map z_low (find_zones
           [example_candle 0 99 10 20 Base, example_candle 100 199 30 40 Base,
            example_candle 200 299 5 15 Momentum] 0))"
  using find_zones_keeps_by_touch_count
    [of "[example_candle 0 99 10 20 Base, example_candle 100 199 30 40 Base,
          example_candle 200 299 5 15 Momentum]" 0]
  by (simp add: example_candle_def)

text \<open>
  C5. For a fixed frame the zones held grow with the threshold: every zone held with
  \<open>t\<close> is held, as often, with any \<open>t' \<ge> t\<close>.
\<close>

theorem find_zones_mono:
  assumes "t \<le> t'"
  shows "mset (find_zones data t) \<subseteq># mset (find_zones data t')"
  unfolding find_zones_mset
proof (rule image_mset_subseteq_mono, rule filter_mset_mono_strong)
  show "mset data \<subseteq># mset data" by simp
next
  fix b
  assume "candle_type b = Base \<and>
          int (length (filter (is_touch b) (later_candles data b))) \<le> t"
  with assms show "candle_type b = Base \<and>
          int (length (filter (is_touch b) (later_candles data b))) \<le> t'"
    by simp
qed

theorem find_zones_mono_witness:
  "(0::int) \<le> 1 \<and>
   mset (find_zones
           [example_candle 0 99 10 20 Base, example_candle 100 199 5 15 Momentum] 0)
   \<subseteq># mset (find_zones
           [example_candle 0 99 10 20 Base, example_candle 100 199 5 15 Momentum] 1)"
  using find_zones_mono
    [of 0 1 "[example_candle 0 99 10 20 Base, example_candle 100 199 5 15 Momentum]"]
  by simp

lemma engulfing_not_touch:
  "c_low c \<le> c_low b \<Longrightarrow> c_high b \<le> c_high c \<Longrightarrow> \<not> is_touch b c"
  by (auto simp: is_touch_def)

lemma count_touches_skip:
  "\<not> is_touch b c \<Longrightarrow>
   count_touches b m (pre @ c # post) n = count_touches b m (pre @ post) n"
  by (induction pre arbitrary: n) simp_all

text \<open>
  C10. A later candle \<open>c\<close> that engulfs the band of the base candle \<open>b\<close>
  (\<open>c_low c \<le> c_low b\<close> and \<open>c_high c \<ge> c_high b\<close>) is no touch, and wherever it stands
  in the scan the counter is what it is without it. So a zone is held although a later
  candle sweeps through all of it; the witness shows one, with no touch allowed.
\<close>

theorem engulfing_candle_adds_no_touch:
  assumes "c_low c \<le> c_low b" and "c_high b \<le> c_high c"
  shows "\<not> is_touch b c \<and>
         count_touches b m (pre @ c # post) n = count_touches b m (pre @ post) n"
  using assms by (simp add: engulfing_not_touch count_touches_skip)

theorem engulfing_candle_adds_no_touch_witness:
  "c_low (example_candle 100 199 5 25 Momentum) \<le> c_low (example_candle 0 99 10 20 Base)
   \<and> c_high (example_candle 0 99 10 20 Base) \<le> c_high (example_candle 100 199 5 25 Momentum)
   \<and> \<not> is_touch (example_candle 0 99 10 20 Base) (example_candle 100 199 5 25 Momentum)
   \<and> count_touches (example_candle 0 99 10 20 Base) 0
        ([] @ example_candle 100 199 5 25 Momentum # []) 0 = 0
   \<and> find_zones [example_candle 0 99 10 20 Base, example_candle 100 199 5 25 Momentum] 0
       = [\<lparr>z_close_timestamp = 99, z_high = 20, z_low = 10\<rparr>]"
  using engulfing_candle_adds_no_touch
    [of "example_candle 100 199 5 25 Momentum" "example_candle 0 99 10 20 Base" 0 "[]" "[]" 0]
  by (simp add: find_zones_def later_candles_def is_touch_def zone_of_def example_candle_def)

text \<open>
  When every later candle engulfs the band of a base candle, its zone is held for every
  threshold from 0.
\<close>

lemma zone_held_when_later_candles_engulf:
  assumes "b \<in> set data" and "candle_type b = Base" and "0 \<le> m"
    and "\<forall>c\<in>set (later_candles data b). c_low c \<le> c_low b \<and> c_high b \<le> c_high c"
  shows "zone_of b \<in> set (find_zones data m)"
proof -
  from assms(4) have "filter (is_touch b) (later_candles data b) = []"
    by (simp add: filter_empty_conv engulfing_not_touch)
  with assms(1-3) have "b \<in># filter_mset (\<lambda>b. candle_type b = Base \<and>
        int (length (filter (is_touch b) (later_candles data b))) \<le> m) (mset data)"
    by simp
  then have "zone_of b \<in># mset (find_zones data m)"
    unfolding find_zones_mset by (simp add: in_image_mset)
  then show ?thesis by simp
qed

section \<open>The merger and the last zone\<close>

text \<open>
  C6 says that a pass over no zone or over one zone returns its input and does not
  fail. In the source the loop body does not run on such an input, the loop variable
  \<^verbatim>\<open>index\<close> is never bound, and the line that builds \<^verbatim>\<open>last_zone\<close> reads it: the pass
  raises \<^verbatim>\<open>UnboundLocalError\<close>, and so does the loop of \<^verbatim>\<open>generate_chart\<close> around it.
\<close>

theorem append_zones_raises_below_two_zones:
  "append_zones [] = Inl UnboundLocalError \<and>
   append_zones [z] = Inl UnboundLocalError \<and>
   generate_chart_zones [] = Inl UnboundLocalError \<and>
   generate_chart_zones [z] = Inl UnboundLocalError"
  by (simp add: generate_chart_zones.simps append_zones_def)

text \<open>
  One pass over two zones that overlap: the merged zone is added, and then
  \<^verbatim>\<open>last_zone\<close> is added as well, so the pass returns two zones again.
\<close>

lemma append_zones_two_overlapping:
  "append_zones
     [\<lparr>z_close_timestamp = 1, z_high = 20, z_low = 10\<rparr>,
      \<lparr>z_close_timestamp = 2, z_high = 18, z_low = 15\<rparr>]
   = Inr [\<lparr>z_close_timestamp = 1, z_high = 18, z_low = 10\<rparr>,
          \<lparr>z_close_timestamp = 1, z_high = 18, z_low = 15\<rparr>]"
  by (simp add: append_zones_def upt_rec)

text \<open>
  C2 says that the zones left by the loop of \<^verbatim>\<open>generate_chart\<close> do not overlap. A
  merge of the last two zones of a frame does not lower the count, because
  \<^verbatim>\<open>last_zone\<close> is added after it, so the loop stops although they overlap. With the
  two zones from 10 to 20 and from 15 to 18 the loop body never runs and both stay.
  With the five zones below the loop runs twice and stops at two zones, from 10 to 15
  and from 14 to 16.
\<close>

theorem generate_chart_zones_leaves_overlap:
  "generate_chart_zones
     [\<lparr>z_close_timestamp = 1, z_high = 20, z_low = 10\<rparr>,
      \<lparr>z_close_timestamp = 2, z_high = 18, z_low = 15\<rparr>]
   = Inr [\<lparr>z_close_timestamp = 1, z_high = 20, z_low = 10\<rparr>,
          \<lparr>z_close_timestamp = 2, z_high = 18, z_low = 15\<rparr>]
   \<and> \<not> non_overlapping
         [\<lparr>z_close_timestamp = 1, z_high = 20, z_low = 10\<rparr>,
          \<lparr>z_close_timestamp = 2, z_high = 18, z_low = 15\<rparr>]
   \<and> generate_chart_zones
     [\<lparr>z_close_timestamp = 1, z_high = 12, z_low = 10\<rparr>,
      \<lparr>z_close_timestamp = 2, z_high = 13, z_low = 11\<rparr>,
      \<lparr>z_close_timestamp = 3, z_high = 14, z_low = 12\<rparr>,
      \<lparr>z_close_timestamp = 4, z_high = 15, z_low = 13\<rparr>,
      \<lparr>z_close_timestamp = 5, z_high = 16, z_low = 14\<rparr>]
   = Inr [\<lparr>z_close_timestamp = 1, z_high = 15, z_low = 10\<rparr>,
          \<lparr>z_close_timestamp = 3, z_high = 16, z_low = 14\<rparr>]
   \<and> \<not> non_overlapping
         [\<lparr>z_close_timestamp = 1, z_high = 15, z_low = 10\<rparr>,
          \<lparr>z_close_timestamp = 3, z_high = 16, z_low = 14\<rparr>]"
  by (simp add: generate_chart_zones.simps append_zones_def upt_rec)

text \<open>
  What the loop of \<^verbatim>\<open>generate_chart\<close> does reach. A pass adds at most one zone for each
  index and none for the index after a merge, so it returns as many zones as it was
  given only if no merge was followed by another index, that is, if no pair before the
  last one overlaps.
\<close>

lemma append_zones_loop_step:
  "append_zones_loop zones (index # rest) flag acc =
     (if flag then append_zones_loop zones rest False acc
      else if z_high (zones ! (index - 1)) \<ge> z_low (zones ! index)
      then append_zones_loop zones rest True (acc @ [merged_zone zones index])
      else append_zones_loop zones rest False (acc @ [copied_zone zones index]))"
  by (simp add: merged_zone_def copied_zone_def)

lemma append_zones_loop_grows:
  "length acc \<le> length (append_zones_loop zones indices flag acc)"
proof (induction indices arbitrary: flag acc)
  case Nil
  show ?case by simp
next
  case (Cons index rest)
  have "Suc (length acc) \<le> length (append_zones_loop zones rest f (acc @ [z]))" for f z
    using Cons [of "acc @ [z]" f] by simp
  then have "length acc \<le> length (append_zones_loop zones rest f (acc @ [z]))" for f z
    using Suc_leD by blast
  with Cons [of acc False] show ?case
    by (simp add: append_zones_loop_step del: append_zones_loop.simps)
qed

lemma append_zones_loop_upper:
  "length (append_zones_loop zones [k ..< n] flag acc) \<le> length acc + (n - k) \<and>
   (flag \<and> k < n \<longrightarrow>
      length (append_zones_loop zones [k ..< n] flag acc) < length acc + (n - k))"
proof (induction "n - k" arbitrary: k flag acc)
  case 0
  then show ?case by simp
next
  case (Suc d)
  then have kn: "k < n" and d: "d = n - Suc k" and nk: "n - k = Suc (n - Suc k)" by simp_all
  from kn have upt: "[k ..< n] = k # [Suc k ..< n]" by (simp add: upt_rec)
  have IH: "length (append_zones_loop zones [Suc k ..< n] f a) \<le> length a + (n - Suc k)" for f a
    using Suc.hyps(1) [OF d] by blast
  show ?case
  proof (cases flag)
    case True
    then have f: "flag = True" by simp
    have eq: "append_zones_loop zones [k ..< n] True acc =
          append_zones_loop zones [Suc k ..< n] False acc"
      by (simp only: upt append_zones_loop_step if_True)
    have lt: "length acc + (n - Suc k) < length acc + (n - k)"
      using nk by linarith
    have strict: "length (append_zones_loop zones [k ..< n] flag acc) < length acc + (n - k)"
      unfolding f eq using IH [of False acc] lt by linarith
    show ?thesis by (intro conjI impI less_imp_le strict)
  next
    case False
    then have f: "flag = False" by simp
    have eq: "append_zones_loop zones [k ..< n] False acc =
            append_zones_loop zones [Suc k ..< n] True (acc @ [merged_zone zones k]) \<or>
          append_zones_loop zones [k ..< n] False acc =
            append_zones_loop zones [Suc k ..< n] False (acc @ [copied_zone zones k])"
      by (simp add: upt append_zones_loop_step del: append_zones_loop.simps)
    have len: "length (acc @ [z]) + (n - Suc k) = length acc + (n - k)" for z
      using nk by simp
    have "length (append_zones_loop zones [k ..< n] False acc) \<le> length acc + (n - k)"
      using eq IH [of True "acc @ [merged_zone zones k]"]
        IH [of False "acc @ [copied_zone zones k]"] len
      by metis
    then show ?thesis unfolding f by blast
  qed
qed

lemma append_zones_loop_tight:
  "length (append_zones_loop zones [k ..< n] False acc) = length acc + (n - k) \<Longrightarrow>
   k \<le> i \<Longrightarrow> i + 1 < n \<Longrightarrow> z_high (zones ! (i - 1)) < z_low (zones ! i)"
proof (induction "n - k" arbitrary: k acc)
  case 0
  then show ?case by simp
next
  case (Suc d)
  then have kn: "k < n" and d: "d = n - Suc k" and nk: "n - k = Suc (n - Suc k)" by simp_all
  from kn have upt: "[k ..< n] = k # [Suc k ..< n]" by (simp add: upt_rec)
  from Suc.prems have sk: "Suc k < n" by simp
  show ?case
  proof (cases "z_high (zones ! (k - 1)) \<ge> z_low (zones ! k)")
    case True
    then have "append_zones_loop zones [k ..< n] False acc =
        append_zones_loop zones [Suc k ..< n] True (acc @ [merged_zone zones k])"
      by (simp only: upt append_zones_loop_step if_False if_True)
    moreover have "length (append_zones_loop zones [Suc k ..< n] True (acc @ [merged_zone zones k]))
        < length (acc @ [merged_zone zones k]) + (n - Suc k)"
      using append_zones_loop_upper [of zones "Suc k" n True "acc @ [merged_zone zones k]"] sk
      by blast
    ultimately have "length (append_zones_loop zones [k ..< n] False acc) < length acc + (n - k)"
      using nk by simp
    with Suc.prems(1) show ?thesis by simp
  next
    case False
    then have step: "append_zones_loop zones [k ..< n] False acc =
        append_zones_loop zones [Suc k ..< n] False (acc @ [copied_zone zones k])"
      by (simp only: upt append_zones_loop_step if_False)
    show ?thesis
    proof (cases "i = k")
      case True
      with False show ?thesis by simp
    next
      case ik: False
      with Suc.prems(2) have "Suc k \<le> i" by simp
      moreover from Suc.prems(1) step nk have
        "length (append_zones_loop zones [Suc k ..< n] False (acc @ [copied_zone zones k]))
          = length (acc @ [copied_zone zones k]) + (n - Suc k)"
        by simp
      ultimately show ?thesis
        using Suc.hyps(1) [OF d] Suc.prems(3) by blast
    qed
  qed
qed

lemma append_zones_loop_lower:
  assumes "k < n"
  shows "length acc < length (append_zones_loop zones [k ..< n] False acc)"
proof -
  from assms have upt: "[k ..< n] = k # [Suc k ..< n]" by (simp add: upt_rec)
  have "append_zones_loop zones [k ..< n] False acc =
            append_zones_loop zones [Suc k ..< n] True (acc @ [merged_zone zones k]) \<or>
          append_zones_loop zones [k ..< n] False acc =
            append_zones_loop zones [Suc k ..< n] False (acc @ [copied_zone zones k])"
    by (simp add: upt append_zones_loop_step del: append_zones_loop.simps)
  moreover have "length acc < length (append_zones_loop zones [Suc k ..< n] f (acc @ [z]))" for f z
    using append_zones_loop_grows [of "acc @ [z]" zones "[Suc k ..< n]" f] by simp
  ultimately show ?thesis by metis
qed

lemma non_overlapping_nth:
  "non_overlapping zs \<longleftrightarrow> (\<forall>i. i + 1 < length zs \<longrightarrow> z_high (zs ! i) < z_low (zs ! (i + 1)))"
proof (induction zs rule: non_overlapping.induct)
  case (1 a b rest)
  show ?case
  proof
    assume l: "non_overlapping (a # b # rest)"
    show "\<forall>i. i + 1 < length (a # b # rest) \<longrightarrow>
        z_high ((a # b # rest) ! i) < z_low ((a # b # rest) ! (i + 1))"
    proof (intro allI impI)
      fix i assume "i + 1 < length (a # b # rest)"
      with l 1 show "z_high ((a # b # rest) ! i) < z_low ((a # b # rest) ! (i + 1))"
        by (cases i) auto
    qed
  next
    assume r: "\<forall>i. i + 1 < length (a # b # rest) \<longrightarrow>
        z_high ((a # b # rest) ! i) < z_low ((a # b # rest) ! (i + 1))"
    from r [rule_format, of 0] have "z_high a < z_low b" by simp
    moreover have "z_high ((b # rest) ! i) < z_low ((b # rest) ! (i + 1))"
      if "i + 1 < length (b # rest)" for i
      using r [rule_format, of "Suc i"] that by simp
    ultimately show "non_overlapping (a # b # rest)" using 1 by simp
  qed
qed simp_all

lemma append_zones_length:
  assumes "2 \<le> length zones"
  shows "\<exists>out. append_zones zones = Inr out \<and> 2 \<le> length out \<and> length out \<le> length zones"
proof -
  let ?loop = "append_zones_loop zones [1 ..< length zones] False []"
  from assms have "0 < length ?loop"
    using append_zones_loop_lower [of 1 "length zones" "[]" zones] by simp
  then have lo: "Suc 0 \<le> length ?loop" by linarith
  have "length ?loop \<le> length zones - 1"
    using append_zones_loop_upper [of zones 1 "length zones" False "[]"] by simp
  with assms have up: "Suc (length ?loop) \<le> length zones" by linarith
  from lo up assms show ?thesis
    by (simp add: append_zones_def Let_def)
qed

lemma append_zones_stable:
  assumes "append_zones zones = Inr out" and "length zones \<le> length out"
  shows "non_overlapping (butlast zones)"
proof -
  let ?n = "length zones"
  let ?loop = "append_zones_loop zones [1 ..< ?n] False []"
  from assms(1) have n: "2 \<le> ?n" and out: "length out = Suc (length ?loop)"
    by (auto simp: append_zones_def Let_def split: if_splits)
  have "length ?loop \<le> ?n - 1"
    using append_zones_loop_upper [of zones 1 ?n False "[]"] by simp
  with assms(2) out n have tight: "length ?loop = length ([] :: zone list) + (?n - 1)" by simp
  show ?thesis
    unfolding non_overlapping_nth
  proof (intro allI impI)
    fix j assume j: "j + 1 < length (butlast zones)"
    then have "1 \<le> j + 1" "(j + 1) + 1 < ?n" by simp_all
    with tight have "z_high (zones ! ((j + 1) - 1)) < z_low (zones ! (j + 1))"
      by (rule append_zones_loop_tight)
    with j show "z_high (butlast zones ! j) < z_low (butlast zones ! (j + 1))"
      by (simp add: nth_butlast)
  qed
qed

text \<open>
  On two zones or more the loop ends without an error, and in the frame it leaves, of
  any two neighbouring zones before the last zone the first ends strictly below the
  start of the second. The last pair is not covered, as the two frames above show.
\<close>

lemma generate_chart_zones_returns:
  "2 \<le> length zones \<Longrightarrow> \<exists>out. generate_chart_zones zones = Inr out \<and> 2 \<le> length out"
proof (induction zones rule: generate_chart_zones.induct)
  case (1 zones)
  from "1.prems" obtain a where a: "append_zones zones = Inr a" "2 \<le> length a"
    using append_zones_length by blast
  show ?case
  proof (cases "length a < length zones")
    case True
    with a "1.IH" [of a] have "\<exists>out. generate_chart_zones a = Inr out \<and> 2 \<le> length out"
      by simp
    with a True show ?thesis by (subst generate_chart_zones.simps) simp
  next
    case False
    with a "1.prems" show ?thesis by (subst generate_chart_zones.simps) simp
  qed
qed

lemma generate_chart_zones_all_but_last:
  "generate_chart_zones zones = Inr out \<Longrightarrow> non_overlapping (butlast out)"
proof (induction zones rule: generate_chart_zones.induct)
  case (1 zones)
  from "1.prems" obtain a where a: "append_zones zones = Inr a"
    by (subst (asm) generate_chart_zones.simps) (auto split: sum.splits)
  show ?case
  proof (cases "length a < length zones")
    case True
    with a "1.prems" have "generate_chart_zones a = Inr out"
      by (subst (asm) generate_chart_zones.simps) simp
    with a True "1.IH" show ?thesis by simp
  next
    case False
    with a "1.prems" have "out = zones"
      by (subst (asm) generate_chart_zones.simps) simp
    moreover from False have "length zones \<le> length a" by simp
    with a have "non_overlapping (butlast zones)"
      by (rule append_zones_stable)
    ultimately show ?thesis by simp
  qed
qed

end
